theory Spec2Isabelle
  imports Main
begin

section \<open>Data model\<close>

text \<open>
  The Go structs of the swimlane synchroniser, one record per struct. Several structs
  share field names (\<open>ID\<close>, \<open>Name\<close>, \<open>Query\<close>), so every field carries the name of its
  struct as a prefix. Go's \<open>int\<close> is modelled as \<open>int\<close>: identifiers are only stored and
  compared, no arithmetic is done on them. Go strings are byte sequences, as HOL's
  \<open>string\<close> is.
\<close>

record swimlane =
  swimlane_ID :: int
  swimlane_Name :: string
  swimlane_Description :: string
  swimlane_Query :: string

record currentViewConfig =
  Swimlanes :: "swimlane list"

record dashboard =
  CurrentViewConfig :: currentViewConfig

record field =
  field_ID :: string
  field_Text :: string

record issue =
  issue_Key :: string
  issue_Fields :: "field list"

record swimlaneUpdates =
  updates_ID :: int
  updates_Name :: string
  updates_Action :: string
  updates_Query :: string

record changelogItem =
  item_ToString :: string
  item_FromString :: string
  item_Field :: string

text \<open>
  A Go \<open>error\<close> value: either an error of the tracker client, or an error wrapped with a
  message by \<open>errors.Wrapf\<close>. The \<open>nil\<close> error is \<open>None\<close> of \<open>error option\<close>, and a Go
  function returning \<open>(T, error)\<close> returns a pair here.
\<close>

datatype error = JiraError string | Wrapf error string

subsection \<open>Constants\<close>

definition labelsFieldID :: string where
  "labelsFieldID = ''labels''"

definition summaryFieldID :: string where
  "summaryFieldID = ''summary''"

definition swimlaneStoryLabel :: string where
  "swimlaneStoryLabel = ''swimline-story''"

definition createAction :: string where
  "createAction = ''create''"

definition removeAction :: string where
  "removeAction = ''remove''"

definition recyclingTeamLabel :: string where
  "recyclingTeamLabel = ''recycling-nsk''"

definition recyclingTeamDashboardID :: int where
  "recyclingTeamDashboardID = 351"

text \<open>The zero value \<open>swimlaneUpdates{}\<close>: every field at its Go zero value.\<close>

definition swimlaneUpdates_zero :: swimlaneUpdates where
  "swimlaneUpdates_zero =
     \<lparr>updates_ID = 0, updates_Name = [], updates_Action = [], updates_Query = []\<rparr>"

section \<open>The standard library's string functions\<close>

text \<open>
  \<open>strings.HasPrefix(s, prefix)\<close>: \<open>len(s) >= len(prefix) && s[:len(prefix)] == prefix\<close>.
\<close>

definition HasPrefix :: "string \<Rightarrow> string \<Rightarrow> bool" where
  "HasPrefix s pre = (length pre \<le> length s \<and> take (length pre) s = pre)"

text \<open>
  \<open>strings.Split(s, sep)\<close> for a separator that is not empty cuts \<open>s\<close> at every
  occurrence of \<open>sep\<close>, found from the left and not overlapping, and returns the pieces
  between the cuts; a string without the separator comes back as the one piece, so the
  result is never empty. \<open>genSplit\<close> walks \<open>s\<close> from the left: \<open>acc\<close> holds, reversed, the
  bytes of the piece being read; where the separator starts the piece is finished and
  the separator skipped.
\<close>

function genSplit :: "string \<Rightarrow> string \<Rightarrow> string \<Rightarrow> string list" where
  "genSplit sep acc [] = [rev acc]"
| "genSplit sep acc (c # cs) =
     (if sep \<noteq> [] \<and> HasPrefix (c # cs) sep
      then rev acc # genSplit sep [] (drop (length sep) (c # cs))
      else genSplit sep (c # acc) cs)"
  by pat_completeness auto
termination
  by (relation "measure (\<lambda>(sep, acc, s). length s)") auto

text \<open>
  With the empty separator Go's \<open>Split\<close> explodes the string into its characters (one
  piece per byte on ASCII text, no piece for the empty string). No call of this program
  passes the empty separator.
\<close>

definition strings_Split :: "string \<Rightarrow> string \<Rightarrow> string list" where
  "strings_Split s sep = (if sep = [] then map (\<lambda>c. [c]) s else genSplit sep [] s)"

text \<open>\<open>strings.Join\<close>, the inverse the pieces of a split are read against.\<close>

fun strings_Join :: "string list \<Rightarrow> string \<Rightarrow> string" where
  "strings_Join [] sep = []"
| "strings_Join [x] sep = x"
| "strings_Join (x # y # ys) sep = x @ sep @ strings_Join (y # ys) sep"

text \<open>\<open>strings.Contains(s, substr)\<close>: \<open>substr\<close> starts somewhere in \<open>s\<close>.\<close>

fun strings_Contains :: "string \<Rightarrow> string \<Rightarrow> bool" where
  "strings_Contains [] substr = (substr = [])"
| "strings_Contains (c # cs) substr = (HasPrefix (c # cs) substr \<or> strings_Contains cs substr)"

section \<open>The decision engine\<close>

text \<open>\<open>has\<close>: linear scan with exact string equality.\<close>

fun has :: "string list \<Rightarrow> string \<Rightarrow> bool" where
  "has [] v = False"
| "has (item # array) v = (if item = v then True else has array v)"

text \<open>\<open>getDashboardID\<close>: the first label equal to the team label decides.\<close>

fun getDashboardID :: "string list \<Rightarrow> int" where
  "getDashboardID [] = 0"
| "getDashboardID (label # newLabels) =
     (if label = recyclingTeamLabel then recyclingTeamDashboardID
      else getDashboardID newLabels)"

text \<open>
  \<open>getLabelsFromChangelog\<close>: the first item whose field is \<open>labels\<close> is split on \<open>,\<close>;
  without such an item both results are \<open>nil\<close>, the slice with no element.
\<close>

fun getLabelsFromChangelog :: "changelogItem list \<Rightarrow> string list \<times> string list" where
  "getLabelsFromChangelog [] = ([], [])"
| "getLabelsFromChangelog (item # items) =
     (if item_Field item = labelsFieldID
      then (strings_Split (item_FromString item) '','',
            strings_Split (item_ToString item) '','')
      else getLabelsFromChangelog items)"

fun getSwimlaneID :: "string \<Rightarrow> swimlane list \<Rightarrow> int" where
  "getSwimlaneID name [] = 0"
| "getSwimlaneID name (s # swimlanes) =
     (if swimlane_Name s = name then swimlane_ID s else getSwimlaneID name swimlanes)"

definition isNeedToCreateSwimlane :: "string list \<Rightarrow> string list \<Rightarrow> bool" where
  "isNeedToCreateSwimlane newLabels oldLabels =
     (has newLabels swimlaneStoryLabel \<and> \<not> has oldLabels swimlaneStoryLabel)"

definition isNeedToRemoveSwimlane :: "string list \<Rightarrow> string list \<Rightarrow> bool" where
  "isNeedToRemoveSwimlane newLabels oldLabels =
     (\<not> has newLabels swimlaneStoryLabel \<and> has oldLabels swimlaneStoryLabel)"

fun dashboardSwimlaneAlreadyExists :: "swimlane list \<Rightarrow> string \<Rightarrow> bool" where
  "dashboardSwimlaneAlreadyExists [] newSwimlane = False"
| "dashboardSwimlaneAlreadyExists (s # currentSwimlanes) newSwimlane =
     (if swimlane_Name s = newSwimlane then True
      else dashboardSwimlaneAlreadyExists currentSwimlanes newSwimlane)"

text \<open>
  \<open>getSwimlaneName\<close>: the loop over the issue's fields, then the two \<open>Sprintf\<close> formats
  \<open><%s> %s\<close> and \<open><%s> No summary\<close> (the verb \<open>%s\<close> inserts a string as it is).
\<close>

fun getSwimlaneName_fields :: "string \<Rightarrow> field list \<Rightarrow> string" where
  "getSwimlaneName_fields key [] = ''<'' @ key @ ''> No summary''"
| "getSwimlaneName_fields key (f # flds) =
     (if field_ID f = summaryFieldID then ''<'' @ key @ ''> '' @ field_Text f
      else getSwimlaneName_fields key flds)"

definition getSwimlaneName :: "issue \<Rightarrow> string" where
  "getSwimlaneName i = getSwimlaneName_fields (issue_Key i) (issue_Fields i)"

definition getSwimlaneQuery :: "string \<Rightarrow> string" where
  "getSwimlaneQuery issueKey = ''issue in linkedIssues('' @ issueKey @ '')''"

text \<open>
  \<open>getLabelsField\<close>: \<open>labelsText\<close> starts empty and takes the text of the first field
  whose id is \<open>labels\<close>; the text is then split on comma and space.
\<close>

fun getLabelsField_text :: "field list \<Rightarrow> string" where
  "getLabelsField_text [] = []"
| "getLabelsField_text (f # flds) =
     (if field_ID f = labelsFieldID then field_Text f else getLabelsField_text flds)"

definition getLabelsField :: "field list \<Rightarrow> string list" where
  "getLabelsField flds = strings_Split (getLabelsField_text flds) '', ''"

text \<open>
  The tracker client is outside the decision engine: \<open>getCurrentDashboard\<close>, the HTTP
  request for a dashboard's configuration, is a parameter that returns a dashboard and
  an error or \<open>nil\<close>. \<open>getCurrentSwimlanes\<close> wraps its error or returns its swimlanes.
\<close>

definition getCurrentSwimlanes ::
  "(int \<Rightarrow> dashboard \<times> error option) \<Rightarrow> int \<Rightarrow> swimlane list \<times> error option" where
  "getCurrentSwimlanes getCurrentDashboard dashboardID =
     (case getCurrentDashboard dashboardID of
        (d, Some err) \<Rightarrow> ([], Some (Wrapf err ''Can not get current swimlanes''))
      | (d, None) \<Rightarrow> (Swimlanes (CurrentViewConfig d), None))"

text \<open>
  \<open>getSwimlaneUpdates\<close>: the early return on a failed fetch, the early return of the
  zero value when the swimlane to create exists already, then \<open>result\<close> assigned for a
  creation and assigned again for a removal.
\<close>

definition getSwimlaneUpdates ::
  "(int \<Rightarrow> dashboard \<times> error option) \<Rightarrow> int \<Rightarrow> issue \<Rightarrow> string list \<Rightarrow> string list
     \<Rightarrow> swimlaneUpdates \<times> error option" where
  "getSwimlaneUpdates getCurrentDashboard dashboardID newIssue oldLabels newLabels =
     (case getCurrentSwimlanes getCurrentDashboard dashboardID of
        (currentSwimlanes, Some err) \<Rightarrow> (swimlaneUpdates_zero, Some err)
      | (currentSwimlanes, None) \<Rightarrow>
          (let swimlaneName = getSwimlaneName newIssue;
               needToCreateSwimlanes = isNeedToCreateSwimlane newLabels oldLabels
           in if needToCreateSwimlanes
                 \<and> dashboardSwimlaneAlreadyExists currentSwimlanes swimlaneName
              then (swimlaneUpdates_zero, None)
              else
                (let result0 = swimlaneUpdates_zero;
                     result1 =
                       (if needToCreateSwimlanes
                        then \<lparr>updates_ID = 0, updates_Name = swimlaneName,
                              updates_Action = createAction,
                              updates_Query = getSwimlaneQuery (issue_Key newIssue)\<rparr>
                        else result0);
                     result2 =
                       (if isNeedToRemoveSwimlane newLabels oldLabels
                        then \<lparr>updates_ID = getSwimlaneID swimlaneName currentSwimlanes,
                              updates_Name = swimlaneName,
                              updates_Action = removeAction,
                              updates_Query = []\<rparr>
                        else result1)
                 in (result2, None))))"

section \<open>Properties of the string functions\<close>

text \<open>
  The pieces of a split, joined again with the separator, give the string back, and no
  piece contains the separator.
\<close>

lemma genSplit_not_Nil: "genSplit sep acc s \<noteq> []"
  by (induction sep acc s rule: genSplit.induct) auto

lemma Join_Cons: "ys \<noteq> [] \<Longrightarrow> strings_Join (x # ys) sep = x @ sep @ strings_Join ys sep"
  by (cases ys) auto

lemma HasPrefix_append: "HasPrefix s pre \<Longrightarrow> pre @ drop (length pre) s = s"
  unfolding HasPrefix_def by (metis append_take_drop_id)

lemma Join_genSplit: "sep \<noteq> [] \<Longrightarrow> strings_Join (genSplit sep acc s) sep = rev acc @ s"
proof (induction sep acc s rule: genSplit.induct)
  case (1 sep acc)
  then show ?case by simp
next
  case (2 sep acc c cs)
  show ?case
  proof (cases "HasPrefix (c # cs) sep")
    case True
    with 2 have "strings_Join (genSplit sep [] (drop (length sep) (c # cs))) sep
        = drop (length sep) (c # cs)" by simp
    with True 2(3) show ?thesis
      using HasPrefix_append [OF True] by (simp add: Join_Cons genSplit_not_Nil del: drop_Suc_Cons)
  next
    case False
    with 2 show ?thesis by simp
  qed
qed


lemma HasPrefix_Nil: "HasPrefix [] pre = (pre = [])"
  by (auto simp: HasPrefix_def)

lemma HasPrefix_appendI: "HasPrefix a pre \<Longrightarrow> HasPrefix (a @ b) pre"
  by (auto simp: HasPrefix_def)

lemma Contains_iff:
  "strings_Contains t sub = (\<exists>i\<le>length t. HasPrefix (drop i t) sub)"
proof (induction t)
  case Nil
  then show ?case by (simp add: HasPrefix_Nil)
next
  case (Cons c cs)
  show ?case
  proof
    assume "strings_Contains (c # cs) sub"
    then consider "HasPrefix (c # cs) sub" | "strings_Contains cs sub" by auto
    then show "\<exists>i\<le>length (c # cs). HasPrefix (drop i (c # cs)) sub"
    proof cases
      case 1
      then have "HasPrefix (drop 0 (c # cs)) sub" by simp
      then show ?thesis by blast
    next
      case 2
      with Cons obtain i where "i \<le> length cs" "HasPrefix (drop i cs) sub" by auto
      then have "Suc i \<le> length (c # cs)" "HasPrefix (drop (Suc i) (c # cs)) sub" by auto
      then show ?thesis by blast
    qed
  next
    assume "\<exists>i\<le>length (c # cs). HasPrefix (drop i (c # cs)) sub"
    then obtain i where i: "i \<le> length (c # cs)" "HasPrefix (drop i (c # cs)) sub" by blast
    show "strings_Contains (c # cs) sub"
    proof (cases i)
      case 0
      with i show ?thesis by simp
    next
      case (Suc j)
      with i have "j \<le> length cs" "HasPrefix (drop j cs) sub" by auto
      with Cons show ?thesis by auto
    qed
  qed
qed

lemma not_Contains_rev_acc:
  assumes sep: "sep \<noteq> []"
    and inv: "\<forall>i<length acc. \<not> HasPrefix (drop i (rev acc @ s)) sep"
  shows "\<not> strings_Contains (rev acc) sep"
proof
  assume "strings_Contains (rev acc) sep"
  then obtain i where i: "i \<le> length acc" "HasPrefix (drop i (rev acc)) sep"
    by (auto simp: Contains_iff)
  show False
  proof (cases "i = length acc")
    case True
    with i sep show False by (simp add: HasPrefix_Nil)
  next
    case False
    with i have lt: "i < length acc" by simp
    from i have "HasPrefix (drop i (rev acc) @ s) sep" by (rule_tac HasPrefix_appendI)
    with i have "HasPrefix (drop i (rev acc @ s)) sep" by simp
    with inv lt show False by blast
  qed
qed

lemma genSplit_pieces:
  "sep \<noteq> [] \<Longrightarrow> \<forall>i<length acc. \<not> HasPrefix (drop i (rev acc @ s)) sep \<Longrightarrow>
     t \<in> set (genSplit sep acc s) \<Longrightarrow> \<not> strings_Contains t sep"
proof (induction sep acc s rule: genSplit.induct)
  case (1 sep acc)
  then show ?case using not_Contains_rev_acc [of sep acc "[]"] by simp
next
  case (2 sep acc c cs)
  show ?case
  proof (cases "HasPrefix (c # cs) sep")
    case True
    with 2(5) 2(3) consider "t = rev acc"
      | "t \<in> set (genSplit sep [] (drop (length sep) (c # cs)))" by auto
    then show ?thesis
    proof cases
      case 1
      with 2(3,4) show ?thesis using not_Contains_rev_acc [of sep acc "c # cs"] by simp
    next
      case 2
      with True "2.IH"(1) "2.prems"(1) show ?thesis by simp
    qed
  next
    case False
    have "\<forall>i<length (c # acc). \<not> HasPrefix (drop i (rev (c # acc) @ cs)) sep"
    proof (intro allI impI)
      fix i assume "i < length (c # acc)"
      then consider "i < length acc" | "i = length acc" by fastforce
      then show "\<not> HasPrefix (drop i (rev (c # acc) @ cs)) sep"
      proof cases
        case 1
        with 2(4) show ?thesis by simp
      next
        case 2
        with False show ?thesis by simp
      qed
    qed
    with False 2 show ?thesis by simp
  qed
qed

lemma Split_pieces:
  "sep \<noteq> [] \<Longrightarrow> t \<in> set (strings_Split s sep) \<Longrightarrow> \<not> strings_Contains t sep"
  using genSplit_pieces [of sep "[]" s t] by (simp add: strings_Split_def)

lemma Join_Split: "sep \<noteq> [] \<Longrightarrow> strings_Join (strings_Split s sep) sep = s"
  using Join_genSplit [of sep "[]" s] by (simp add: strings_Split_def)

section \<open>Properties of the scans\<close>

lemma has_iff: "has xs v = (v \<in> set xs)"
  by (induction xs) auto

lemma exists_iff:
  "dashboardSwimlaneAlreadyExists cur n = (\<exists>s\<in>set cur. swimlane_Name s = n)"
  by (induction cur) auto

lemma getSwimlaneID_absent:
  "\<forall>s\<in>set cur. swimlane_Name s \<noteq> n \<Longrightarrow> getSwimlaneID n cur = 0"
  by (induction cur) auto

lemma getCurrentSwimlanes_ok:
  "getCurrentDashboard dashboardID = (d, None) \<Longrightarrow>
     getCurrentSwimlanes getCurrentDashboard dashboardID = (Swimlanes (CurrentViewConfig d), None)"
  by (simp add: getCurrentSwimlanes_def)

lemma create_remove_exclusive:
  "isNeedToRemoveSwimlane newLabels oldLabels \<Longrightarrow> \<not> isNeedToCreateSwimlane newLabels oldLabels"
  by (simp add: isNeedToRemoveSwimlane_def isNeedToCreateSwimlane_def)

lemma getSwimlaneUpdates_remove:
  assumes "getCurrentDashboard dashboardID = (d, None)"
    and "isNeedToRemoveSwimlane newLabels oldLabels"
  shows "getSwimlaneUpdates getCurrentDashboard dashboardID newIssue oldLabels newLabels =
     (\<lparr>updates_ID = getSwimlaneID (getSwimlaneName newIssue) (Swimlanes (CurrentViewConfig d)),
       updates_Name = getSwimlaneName newIssue, updates_Action = removeAction,
       updates_Query = []\<rparr>, None)"
  using assms create_remove_exclusive [OF assms(2)]
  by (simp add: getSwimlaneUpdates_def getCurrentSwimlanes_ok Let_def)

lemma actions_distinct: "createAction \<noteq> removeAction" "createAction \<noteq> []" "removeAction \<noteq> []"
  by (simp_all add: createAction_def removeAction_def)

lemma getLabelsFromChangelog_no_labels:
  "\<forall>item\<in>set items. item_Field item \<noteq> labelsFieldID \<Longrightarrow>
     getLabelsFromChangelog items = ([], [])"
  by (induction items) auto

lemma getSwimlaneUpdates_fst_no_labels:
  "fst (getSwimlaneUpdates getCurrentDashboard dashboardID newIssue [] []) = swimlaneUpdates_zero"
  by (simp add: getSwimlaneUpdates_def isNeedToCreateSwimlane_def isNeedToRemoveSwimlane_def
        split: prod.splits option.splits)

lemma getSwimlaneUpdates_snd_no_labels:
  "snd (getCurrentDashboard dashboardID) = None \<Longrightarrow>
     snd (getSwimlaneUpdates getCurrentDashboard dashboardID newIssue [] []) = None"
  by (cases "getCurrentDashboard dashboardID")
     (simp add: getSwimlaneUpdates_def getCurrentSwimlanes_def isNeedToCreateSwimlane_def
        isNeedToRemoveSwimlane_def)

lemma getLabelsFromChangelog_find:
  "find (\<lambda>i. item_Field i = labelsFieldID) items = Some it \<Longrightarrow>
     getLabelsFromChangelog items =
       (strings_Split (item_FromString it) '','', strings_Split (item_ToString it) '','')"
  by (induction items) (auto split: if_splits)

lemma getLabelsField_text_find:
  "getLabelsField_text flds =
     (case find (\<lambda>f. field_ID f = labelsFieldID) flds of None \<Rightarrow> [] | Some f \<Rightarrow> field_Text f)"
  by (induction flds) auto

section \<open>Properties of the decision\<close>

text \<open>
  C1. Idempotent creation. Let the dashboard be fetched without error. If the create
  condition holds (the new labels have the trigger label, the old labels do not) and a
  current swimlane bears the name derived from the issue, \<open>getSwimlaneUpdates\<close> returns
  the zero value and no error. Hence whenever it returns a decision whose action is
  \<open>create\<close>, no current swimlane bears the decision's name.
\<close>

theorem create_is_idempotent:
  assumes "getCurrentDashboard dashboardID = (d, None)"
  shows "(isNeedToCreateSwimlane newLabels oldLabels \<and>
          (\<exists>s\<in>set (Swimlanes (CurrentViewConfig d)). swimlane_Name s = getSwimlaneName newIssue)
          \<longrightarrow> getSwimlaneUpdates getCurrentDashboard dashboardID newIssue oldLabels newLabels
                = (swimlaneUpdates_zero, None))
       \<and> (updates_Action (fst (getSwimlaneUpdates getCurrentDashboard dashboardID newIssue
              oldLabels newLabels)) = createAction
          \<longrightarrow> (\<forall>s\<in>set (Swimlanes (CurrentViewConfig d)).
                 swimlane_Name s \<noteq> updates_Name (fst (getSwimlaneUpdates getCurrentDashboard
                   dashboardID newIssue oldLabels newLabels))))"
proof (intro conjI impI)
  have cur: "getCurrentSwimlanes getCurrentDashboard dashboardID
      = (Swimlanes (CurrentViewConfig d), None)"
    using assms by (rule getCurrentSwimlanes_ok)
  assume "isNeedToCreateSwimlane newLabels oldLabels \<and>
    (\<exists>s\<in>set (Swimlanes (CurrentViewConfig d)). swimlane_Name s = getSwimlaneName newIssue)"
  then show "getSwimlaneUpdates getCurrentDashboard dashboardID newIssue oldLabels newLabels
      = (swimlaneUpdates_zero, None)"
    by (simp add: getSwimlaneUpdates_def cur exists_iff)
next
  have cur: "getCurrentSwimlanes getCurrentDashboard dashboardID
      = (Swimlanes (CurrentViewConfig d), None)"
    using assms by (rule getCurrentSwimlanes_ok)
  let ?u = "fst (getSwimlaneUpdates getCurrentDashboard dashboardID newIssue oldLabels newLabels)"
  assume create: "updates_Action ?u = createAction"
  show "\<forall>s\<in>set (Swimlanes (CurrentViewConfig d)). swimlane_Name s \<noteq> updates_Name ?u"
  proof (cases "isNeedToRemoveSwimlane newLabels oldLabels")
    case True
    with create assms show ?thesis
      using actions_distinct by (simp add: getSwimlaneUpdates_remove)
  next
    case False
    with create show ?thesis
      using actions_distinct
      by (auto simp: getSwimlaneUpdates_def cur exists_iff
            swimlaneUpdates_zero_def Let_def split: if_splits)
  qed
qed

theorem create_is_idempotent_witness:
  "isNeedToCreateSwimlane [''bug'', ''swimline-story''] [''bug'']
   \<and> (\<exists>s\<in>set [\<lparr>swimlane_ID = 7, swimlane_Name = ''<PROJ-1> Fix crash'',
                   swimlane_Description = [], swimlane_Query = []\<rparr>].
         swimlane_Name s = getSwimlaneName
           \<lparr>issue_Key = ''PROJ-1'',
            issue_Fields = [\<lparr>field_ID = ''summary'', field_Text = ''Fix crash''\<rparr>]\<rparr>)
   \<and> getSwimlaneUpdates
        (\<lambda>n. (\<lparr>CurrentViewConfig = \<lparr>Swimlanes =
           [\<lparr>swimlane_ID = 7, swimlane_Name = ''<PROJ-1> Fix crash'',
             swimlane_Description = [], swimlane_Query = []\<rparr>]\<rparr>\<rparr>, None))
        351
        \<lparr>issue_Key = ''PROJ-1'',
         issue_Fields = [\<lparr>field_ID = ''summary'', field_Text = ''Fix crash''\<rparr>]\<rparr>
        [''bug''] [''bug'', ''swimline-story'']
      = (swimlaneUpdates_zero, None)
   \<and> getSwimlaneUpdates
        (\<lambda>n. (\<lparr>CurrentViewConfig = \<lparr>Swimlanes =
           [\<lparr>swimlane_ID = 3, swimlane_Name = ''<PROJ-2> Other'',
             swimlane_Description = [], swimlane_Query = []\<rparr>]\<rparr>\<rparr>, None))
        351
        \<lparr>issue_Key = ''PROJ-1'',
         issue_Fields = [\<lparr>field_ID = ''summary'', field_Text = ''Fix crash''\<rparr>]\<rparr>
        [''bug''] [''bug'', ''swimline-story'']
      = (\<lparr>updates_ID = 0, updates_Name = ''<PROJ-1> Fix crash'', updates_Action = ''create'',
          updates_Query = ''issue in linkedIssues(PROJ-1)''\<rparr>, None)
   \<and> ''<PROJ-2> Other'' \<noteq> updates_Name (fst (getSwimlaneUpdates
        (\<lambda>n. (\<lparr>CurrentViewConfig = \<lparr>Swimlanes =
           [\<lparr>swimlane_ID = 3, swimlane_Name = ''<PROJ-2> Other'',
             swimlane_Description = [], swimlane_Query = []\<rparr>]\<rparr>\<rparr>, None))
        351
        \<lparr>issue_Key = ''PROJ-1'',
         issue_Fields = [\<lparr>field_ID = ''summary'', field_Text = ''Fix crash''\<rparr>]\<rparr>
        [''bug''] [''bug'', ''swimline-story'']))"
proof -
  let ?sw = "\<lparr>swimlane_ID = 7, swimlane_Name = ''<PROJ-1> Fix crash'',
             swimlane_Description = [], swimlane_Query = []\<rparr>"
  let ?d = "\<lparr>CurrentViewConfig = \<lparr>Swimlanes = [?sw]\<rparr>\<rparr>"
  let ?i = "\<lparr>issue_Key = ''PROJ-1'',
         issue_Fields = [\<lparr>field_ID = ''summary'', field_Text = ''Fix crash''\<rparr>]\<rparr>"
  have need: "isNeedToCreateSwimlane [''bug'', ''swimline-story''] [''bug'']"
    by (simp add: isNeedToCreateSwimlane_def swimlaneStoryLabel_def)
  have ex: "\<exists>s\<in>set (Swimlanes (CurrentViewConfig ?d)). swimlane_Name s = getSwimlaneName ?i"
    by (simp add: getSwimlaneName_def summaryFieldID_def)
  from create_is_idempotent [where getCurrentDashboard = "\<lambda>n. (?d, None)"
      and dashboardID = 351 and d = ?d and newLabels = "[''bug'', ''swimline-story'']"
      and oldLabels = "[''bug'']" and newIssue = ?i] need ex
  have "getSwimlaneUpdates (\<lambda>n. (?d, None)) 351 ?i [''bug''] [''bug'', ''swimline-story'']
      = (swimlaneUpdates_zero, None)" by simp
  note noop = this
  let ?sw' = "\<lparr>swimlane_ID = 3, swimlane_Name = ''<PROJ-2> Other'',
             swimlane_Description = [], swimlane_Query = []\<rparr>"
  let ?d' = "\<lparr>CurrentViewConfig = \<lparr>Swimlanes = [?sw']\<rparr>\<rparr>"
  have created: "getSwimlaneUpdates (\<lambda>n. (?d', None)) 351 ?i [''bug''] [''bug'', ''swimline-story'']
      = (\<lparr>updates_ID = 0, updates_Name = ''<PROJ-1> Fix crash'', updates_Action = ''create'',
          updates_Query = ''issue in linkedIssues(PROJ-1)''\<rparr>, None)"
    using need
    by (simp add: getSwimlaneUpdates_def getCurrentSwimlanes_def getSwimlaneName_def
          summaryFieldID_def isNeedToRemoveSwimlane_def isNeedToCreateSwimlane_def
          swimlaneStoryLabel_def createAction_def getSwimlaneQuery_def)
  then have act: "updates_Action (fst (getSwimlaneUpdates (\<lambda>n. (?d', None)) 351 ?i
      [''bug''] [''bug'', ''swimline-story''])) = createAction"
    by (simp add: createAction_def)
  from create_is_idempotent [where getCurrentDashboard = "\<lambda>n. (?d', None)"
      and dashboardID = 351 and d = ?d' and newLabels = "[''bug'', ''swimline-story'']"
      and oldLabels = "[''bug'']" and newIssue = ?i] act
  have "''<PROJ-2> Other'' \<noteq> updates_Name (fst (getSwimlaneUpdates (\<lambda>n. (?d', None)) 351 ?i
      [''bug''] [''bug'', ''swimline-story'']))"
    by simp
  with need ex noop created show ?thesis by simp
qed

text \<open>
  C3. The create condition and the remove condition never hold together, whatever the
  two label lists are.
\<close>

theorem create_remove_never_both:
  "\<not> (isNeedToCreateSwimlane newLabels oldLabels \<and> isNeedToRemoveSwimlane newLabels oldLabels)"
  by (simp add: isNeedToCreateSwimlane_def isNeedToRemoveSwimlane_def)

text \<open>
  C4. A changelog with no item for the field \<open>labels\<close> gives two empty label lists, no
  error; on them neither condition holds, the decision returned by \<open>getSwimlaneUpdates\<close>
  is the zero value, and with it no error when the dashboard was fetched without error.
\<close>

theorem no_labels_change_is_noop:
  assumes "\<forall>item\<in>set items. item_Field item \<noteq> labelsFieldID"
  shows "getLabelsFromChangelog items = ([], [])
     \<and> \<not> isNeedToCreateSwimlane (snd (getLabelsFromChangelog items))
            (fst (getLabelsFromChangelog items))
     \<and> \<not> isNeedToRemoveSwimlane (snd (getLabelsFromChangelog items))
            (fst (getLabelsFromChangelog items))
     \<and> fst (getSwimlaneUpdates getCurrentDashboard dashboardID newIssue
            (fst (getLabelsFromChangelog items)) (snd (getLabelsFromChangelog items)))
         = swimlaneUpdates_zero
     \<and> (snd (getCurrentDashboard dashboardID) = None \<longrightarrow>
          getSwimlaneUpdates getCurrentDashboard dashboardID newIssue
            (fst (getLabelsFromChangelog items)) (snd (getLabelsFromChangelog items))
          = (swimlaneUpdates_zero, None))"
proof -
  have nil: "getLabelsFromChangelog items = ([], [])"
    using assms by (rule getLabelsFromChangelog_no_labels)
  have "\<not> isNeedToCreateSwimlane [] []" "\<not> isNeedToRemoveSwimlane [] []"
    by (simp_all add: isNeedToCreateSwimlane_def isNeedToRemoveSwimlane_def)
  moreover have "snd (getCurrentDashboard dashboardID) = None \<longrightarrow>
      getSwimlaneUpdates getCurrentDashboard dashboardID newIssue [] [] = (swimlaneUpdates_zero, None)"
    using getSwimlaneUpdates_fst_no_labels [of getCurrentDashboard dashboardID newIssue]
      getSwimlaneUpdates_snd_no_labels [of getCurrentDashboard dashboardID newIssue]
    by (simp add: prod_eq_iff)
  ultimately show ?thesis
    using nil getSwimlaneUpdates_fst_no_labels [of getCurrentDashboard dashboardID newIssue]
    by simp
qed

theorem no_labels_change_is_noop_witness:
  "getLabelsFromChangelog
     [\<lparr>item_ToString = ''In Progress'', item_FromString = ''Open'', item_Field = ''status''\<rparr>]
     = ([], [])
   \<and> getSwimlaneUpdates (\<lambda>n. (\<lparr>CurrentViewConfig = \<lparr>Swimlanes = []\<rparr>\<rparr>, None)) 0
        \<lparr>issue_Key = ''PROJ-1'',
         issue_Fields = [\<lparr>field_ID = ''summary'', field_Text = ''Fix crash''\<rparr>]\<rparr>
        (fst (getLabelsFromChangelog
          [\<lparr>item_ToString = ''In Progress'', item_FromString = ''Open'',
            item_Field = ''status''\<rparr>]))
        (snd (getLabelsFromChangelog
          [\<lparr>item_ToString = ''In Progress'', item_FromString = ''Open'',
            item_Field = ''status''\<rparr>]))
     = (swimlaneUpdates_zero, None)"
proof -
  let ?items = "[\<lparr>item_ToString = ''In Progress'', item_FromString = ''Open'',
                  item_Field = ''status''\<rparr>]"
  have h: "\<forall>item\<in>set ?items. item_Field item \<noteq> labelsFieldID"
    by (simp add: labelsFieldID_def)
  from no_labels_change_is_noop [OF h,
      where getCurrentDashboard = "\<lambda>n. (\<lparr>CurrentViewConfig = \<lparr>Swimlanes = []\<rparr>\<rparr>, None)"
      and dashboardID = 0
      and newIssue = "\<lparr>issue_Key = ''PROJ-1'',
         issue_Fields = [\<lparr>field_ID = ''summary'', field_Text = ''Fix crash''\<rparr>]\<rparr>"]
  show ?thesis by (simp add: labelsFieldID_def)
qed

text \<open>
  C5. The two separators. Where the changelog has an item for the field \<open>labels\<close>, the
  first such item decides: \<open>getLabelsFromChangelog\<close> returns its from-value and its
  to-value, each split on the one character \<open>,\<close>; joined with \<open>,\<close> the labels give each
  value back and no label contains \<open>,\<close>. \<open>getLabelsField\<close> returns the text of the first
  field \<open>labels\<close> (the empty text without one), split on the two characters comma and
  space; joined with them the labels give the text back and no label contains them.
\<close>

theorem label_separators:
  "(find (\<lambda>i. item_Field i = labelsFieldID) items = Some it \<longrightarrow>
      getLabelsFromChangelog items =
        (strings_Split (item_FromString it) '','', strings_Split (item_ToString it) '','')
      \<and> strings_Join (fst (getLabelsFromChangelog items)) '','' = item_FromString it
      \<and> strings_Join (snd (getLabelsFromChangelog items)) '','' = item_ToString it
      \<and> (\<forall>l\<in>set (fst (getLabelsFromChangelog items)) \<union> set (snd (getLabelsFromChangelog items)).
            \<not> strings_Contains l '',''))
   \<and> getLabelsField flds =
       strings_Split (case find (\<lambda>f. field_ID f = labelsFieldID) flds of
                        None \<Rightarrow> [] | Some f \<Rightarrow> field_Text f) '', ''
   \<and> strings_Join (getLabelsField flds) '', '' =
       (case find (\<lambda>f. field_ID f = labelsFieldID) flds of None \<Rightarrow> [] | Some f \<Rightarrow> field_Text f)
   \<and> (\<forall>l\<in>set (getLabelsField flds). \<not> strings_Contains l '', '')"
proof (intro conjI impI)
  assume f: "find (\<lambda>i. item_Field i = labelsFieldID) items = Some it"
  note eq = getLabelsFromChangelog_find [OF f]
  show "getLabelsFromChangelog items =
      (strings_Split (item_FromString it) '','', strings_Split (item_ToString it) '','')"
    by (rule eq)
  show "strings_Join (fst (getLabelsFromChangelog items)) '','' = item_FromString it"
    by (simp add: eq Join_Split)
  show "strings_Join (snd (getLabelsFromChangelog items)) '','' = item_ToString it"
    by (simp add: eq Join_Split)
  show "\<forall>l\<in>set (fst (getLabelsFromChangelog items)) \<union> set (snd (getLabelsFromChangelog items)).
      \<not> strings_Contains l '',''"
    using Split_pieces [of "'',''"] by (auto simp: eq)
next
  show "getLabelsField flds =
       strings_Split (case find (\<lambda>f. field_ID f = labelsFieldID) flds of
                        None \<Rightarrow> [] | Some f \<Rightarrow> field_Text f) '', ''"
    by (simp add: getLabelsField_def getLabelsField_text_find)
  show "strings_Join (getLabelsField flds) '', '' =
       (case find (\<lambda>f. field_ID f = labelsFieldID) flds of None \<Rightarrow> [] | Some f \<Rightarrow> field_Text f)"
    by (simp add: getLabelsField_def getLabelsField_text_find Join_Split)
  show "\<forall>l\<in>set (getLabelsField flds). \<not> strings_Contains l '', ''"
    using Split_pieces [of "'', ''"] by (auto simp: getLabelsField_def)
qed

theorem label_separators_witness:
  "find (\<lambda>i. item_Field i = labelsFieldID)
     [\<lparr>item_ToString = ''Done'', item_FromString = ''Open'', item_Field = ''status''\<rparr>,
      \<lparr>item_ToString = ''a,b'', item_FromString = ''a, b'', item_Field = ''labels''\<rparr>]
     = Some \<lparr>item_ToString = ''a,b'', item_FromString = ''a, b'', item_Field = ''labels''\<rparr>
   \<and> getLabelsFromChangelog
     [\<lparr>item_ToString = ''Done'', item_FromString = ''Open'', item_Field = ''status''\<rparr>,
      \<lparr>item_ToString = ''a,b'', item_FromString = ''a, b'', item_Field = ''labels''\<rparr>]
     = (strings_Split ''a, b'' '','', strings_Split ''a,b'' '','')
   \<and> strings_Split ''a, b'' '','' = [''a'', '' b'']
   \<and> strings_Split ''a,b'' '','' = [''a'', ''b'']
   \<and> getLabelsField [\<lparr>field_ID = ''labels'', field_Text = ''a, b,c''\<rparr>] = [''a'', ''b,c'']"
proof -
  let ?it = "\<lparr>item_ToString = ''a,b'', item_FromString = ''a, b'', item_Field = ''labels''\<rparr>"
  let ?items = "[\<lparr>item_ToString = ''Done'', item_FromString = ''Open'',
                  item_Field = ''status''\<rparr>, ?it]"
  have f: "find (\<lambda>i. item_Field i = labelsFieldID) ?items = Some ?it"
    by (simp add: labelsFieldID_def)
  have "getLabelsFromChangelog ?items = (strings_Split ''a, b'' '','', strings_Split ''a,b'' '','')"
    using label_separators [of ?items ?it "[\<lparr>field_ID = ''labels'', field_Text = ''a, b,c''\<rparr>]"] f
    by simp
  moreover have "getLabelsField [\<lparr>field_ID = ''labels'', field_Text = ''a, b,c''\<rparr>]
      = strings_Split ''a, b,c'' '', ''"
    using label_separators [of ?items ?it "[\<lparr>field_ID = ''labels'', field_Text = ''a, b,c''\<rparr>]"]
    by (simp add: labelsFieldID_def)
  moreover have "strings_Split ''a, b'' '','' = [''a'', '' b'']"
    "strings_Split ''a,b'' '','' = [''a'', ''b'']"
    "strings_Split ''a, b,c'' '', '' = [''a'', ''b,c'']"
    by (simp_all add: strings_Split_def HasPrefix_def)
  ultimately show ?thesis using f by simp
qed

text \<open>
  C6. For a field list with no field \<open>labels\<close>, \<open>getLabelsField\<close> returns the list with
  one element, the empty string, and not the empty list.
\<close>

theorem labels_field_absent:
  assumes "\<forall>f\<in>set flds. field_ID f \<noteq> labelsFieldID"
  shows "getLabelsField flds = [[]]"
proof -
  from assms have "getLabelsField_text flds = []"
    by (induction flds) auto
  then show ?thesis by (simp add: getLabelsField_def strings_Split_def)
qed

theorem labels_field_absent_witness:
  "getLabelsField [\<lparr>field_ID = ''summary'', field_Text = ''Fix crash''\<rparr>] = [[]]
   \<and> getLabelsField [] = [[]]"
proof -
  have "\<forall>f\<in>set [\<lparr>field_ID = ''summary'', field_Text = ''Fix crash''\<rparr>]. field_ID f \<noteq> labelsFieldID"
    by (simp add: labelsFieldID_def)
  then have "getLabelsField [\<lparr>field_ID = ''summary'', field_Text = ''Fix crash''\<rparr>] = [[]]"
    by (rule labels_field_absent)
  moreover have "getLabelsField [] = [[]]"
    using labels_field_absent [of "[]"] by simp
  ultimately show ?thesis by simp
qed

text \<open>
  C7. \<open>getSwimlaneName\<close> returns \<open><\<close>, the issue's key, \<open>>\<close>, a space and the text of the
  first field \<open>summary\<close>; without such a field it returns \<open><\<close>, the key and
  \<open>> No summary\<close>. The result depends on the issue alone.
\<close>

theorem swimlane_name_format:
  "getSwimlaneName i =
     (case find (\<lambda>f. field_ID f = summaryFieldID) (issue_Fields i) of
        Some f \<Rightarrow> ''<'' @ issue_Key i @ ''> '' @ field_Text f
      | None \<Rightarrow> ''<'' @ issue_Key i @ ''> No summary'')"
proof -
  have "getSwimlaneName_fields key flds =
     (case find (\<lambda>f. field_ID f = summaryFieldID) flds of
        Some f \<Rightarrow> ''<'' @ key @ ''> '' @ field_Text f
      | None \<Rightarrow> ''<'' @ key @ ''> No summary'')" for key flds
    by (induction flds) auto
  then show ?thesis by (simp add: getSwimlaneName_def)
qed

text \<open>
  C8. Let the dashboard be fetched without error. If the remove condition holds and no
  current swimlane bears the name derived from the issue, \<open>getSwimlaneUpdates\<close> returns
  the decision with the identity 0, the derived name and the action \<open>remove\<close>, and no
  error.
\<close>

theorem remove_of_absent_swimlane:
  assumes "getCurrentDashboard dashboardID = (d, None)"
    and "isNeedToRemoveSwimlane newLabels oldLabels"
    and "\<forall>s\<in>set (Swimlanes (CurrentViewConfig d)). swimlane_Name s \<noteq> getSwimlaneName newIssue"
  shows "getSwimlaneUpdates getCurrentDashboard dashboardID newIssue oldLabels newLabels =
     (\<lparr>updates_ID = 0, updates_Name = getSwimlaneName newIssue,
       updates_Action = removeAction, updates_Query = []\<rparr>, None)"
  using assms by (simp add: getSwimlaneUpdates_remove getSwimlaneID_absent)

theorem remove_of_absent_swimlane_witness:
  "isNeedToRemoveSwimlane [] [''swimline-story'']
   \<and> getSwimlaneUpdates (\<lambda>n. (\<lparr>CurrentViewConfig = \<lparr>Swimlanes = []\<rparr>\<rparr>, None)) 0
        \<lparr>issue_Key = ''PROJ-1'',
         issue_Fields = [\<lparr>field_ID = ''summary'', field_Text = ''Fix crash''\<rparr>]\<rparr>
        [''swimline-story''] []
      = (\<lparr>updates_ID = 0, updates_Name = ''<PROJ-1> Fix crash'',
          updates_Action = ''remove'', updates_Query = []\<rparr>, None)"
proof -
  let ?d = "\<lparr>CurrentViewConfig = \<lparr>Swimlanes = []\<rparr>\<rparr>"
  let ?i = "\<lparr>issue_Key = ''PROJ-1'',
         issue_Fields = [\<lparr>field_ID = ''summary'', field_Text = ''Fix crash''\<rparr>]\<rparr>"
  have need: "isNeedToRemoveSwimlane [] [''swimline-story'']"
    by (simp add: isNeedToRemoveSwimlane_def swimlaneStoryLabel_def)
  have absent: "\<forall>s\<in>set (Swimlanes (CurrentViewConfig ?d)). swimlane_Name s \<noteq> getSwimlaneName ?i"
    by simp
  from remove_of_absent_swimlane [where getCurrentDashboard = "\<lambda>n. (?d, None)"
      and dashboardID = 0 and d = ?d and newLabels = "[]" and oldLabels = "[''swimline-story'']"
      and newIssue = ?i] need absent
  have "getSwimlaneUpdates (\<lambda>n. (?d, None)) 0 ?i [''swimline-story''] [] =
     (\<lparr>updates_ID = 0, updates_Name = getSwimlaneName ?i,
       updates_Action = removeAction, updates_Query = []\<rparr>, None)" by simp
  with need show ?thesis
    by (simp add: getSwimlaneName_def summaryFieldID_def removeAction_def)
qed

text \<open>
  C9. \<open>getDashboardID\<close> returns 351 when the labels contain the team label
  \<open>recycling-nsk\<close>, and 0 otherwise.
\<close>

theorem dashboard_of_labels:
  "getDashboardID newLabels = (if ''recycling-nsk'' \<in> set newLabels then 351 else 0)"
  by (induction newLabels)
     (auto simp: recyclingTeamLabel_def recyclingTeamDashboardID_def)

text \<open>
  C10. Labels are compared as they are, with no trimming. The changelog item of the
  field \<open>labels\<close> that goes from \<open>other, swimline-story\<close> to \<open>other\<close> is split on \<open>,\<close>
  into \<open>other\<close> and the trigger label after a space, which is not the trigger label:
  the old labels do not have the trigger label, the remove condition fails and the
  decision's action is not \<open>remove\<close>. Split on comma and space, as \<open>getLabelsField\<close>
  does, the same text has the trigger label.
\<close>

theorem changelog_comma_space_hides_trigger:
  "getLabelsFromChangelog
     [\<lparr>item_ToString = ''other'', item_FromString = ''other, swimline-story'',
       item_Field = ''labels''\<rparr>]
     = ([''other'', '' swimline-story''], [''other''])
   \<and> '' swimline-story'' \<noteq> swimlaneStoryLabel
   \<and> \<not> has [''other'', '' swimline-story''] swimlaneStoryLabel
   \<and> \<not> isNeedToRemoveSwimlane [''other''] [''other'', '' swimline-story'']
   \<and> updates_Action (fst (getSwimlaneUpdates getCurrentDashboard dashboardID newIssue
        [''other'', '' swimline-story''] [''other''])) \<noteq> removeAction
   \<and> has (getLabelsField [\<lparr>field_ID = ''labels'', field_Text = ''other, swimline-story''\<rparr>])
        swimlaneStoryLabel"
proof -
  have split: "getLabelsFromChangelog
     [\<lparr>item_ToString = ''other'', item_FromString = ''other, swimline-story'',
       item_Field = ''labels''\<rparr>]
     = ([''other'', '' swimline-story''], [''other''])"
    by (simp add: labelsFieldID_def strings_Split_def HasPrefix_def)
  have no_trigger: "\<not> has [''other'', '' swimline-story''] swimlaneStoryLabel"
    "\<not> has [''other''] swimlaneStoryLabel"
    by (simp_all add: swimlaneStoryLabel_def)
  then have no_need: "\<not> isNeedToRemoveSwimlane [''other''] [''other'', '' swimline-story'']"
    "\<not> isNeedToCreateSwimlane [''other''] [''other'', '' swimline-story'']"
    by (simp_all add: isNeedToRemoveSwimlane_def isNeedToCreateSwimlane_def)
  then have "fst (getSwimlaneUpdates getCurrentDashboard dashboardID newIssue
        [''other'', '' swimline-story''] [''other'']) = swimlaneUpdates_zero"
    by (simp add: getSwimlaneUpdates_def split: prod.splits option.splits)
  then have act: "updates_Action (fst (getSwimlaneUpdates getCurrentDashboard dashboardID newIssue
        [''other'', '' swimline-story''] [''other''])) \<noteq> removeAction"
    by (simp add: swimlaneUpdates_zero_def removeAction_def)
  have fieldpath: "has (getLabelsField [\<lparr>field_ID = ''labels'',
      field_Text = ''other, swimline-story''\<rparr>]) swimlaneStoryLabel"
    by (simp add: getLabelsField_def labelsFieldID_def strings_Split_def HasPrefix_def
          swimlaneStoryLabel_def)
  from split no_trigger(1) no_need(1) act fieldpath show ?thesis
    by (simp add: swimlaneStoryLabel_def)
qed

end
